theory Spec2Isabelle
  imports Main "HOL-Library.Word"
begin

text \<open>
  \<open>src/app.js\<close> is a command-line program for Node that keeps a store of keys and values
  in one file. At start it reads the file, as JSON if the content begins with an opening brace
  and through RSA-OAEP decryption with a private key otherwise; then it runs a menu that adds,
  deletes and shows entries and, on request, encrypts the store with a public key, writes the
  file and exits. This theory embeds the functions of the program, with the parts of
  JavaScript and of Node they depend on, and proves what the specification says about them.
\<close>

section \<open>JavaScript strings and buffers\<close>

text \<open>
  A JavaScript string is a sequence of 16-bit code units; a Node \<open>Buffer\<close> is a sequence
  of bytes. String literals of the program are written \<open>str ''...''\<close>.
\<close>

type_synonym byte = "8 word"
type_synonym code_unit = "16 word"
type_synonym jsstring = "code_unit list"
type_synonym buffer = "byte list"

definition str :: "string \<Rightarrow> jsstring" where
  "str cs = map of_char cs"

text \<open>\<open>String.prototype.startsWith\<close>, \<open>endsWith\<close> and \<open>includes\<close> with one argument
  (\<open>includes\<close> is a keyword of Isabelle, hence \<open>includes_str\<close>).\<close>

definition startsWith :: "jsstring \<Rightarrow> jsstring \<Rightarrow> bool" where
  "startsWith s p = (take (length p) s = p)"

definition endsWith :: "jsstring \<Rightarrow> jsstring \<Rightarrow> bool" where
  "endsWith s p = (length p \<le> length s \<and> drop (length s - length p) s = p)"

fun includes_str :: "jsstring \<Rightarrow> jsstring \<Rightarrow> bool" where
  "includes_str [] p = (p = [])"
| "includes_str (c # cs) p = (startsWith (c # cs) p \<or> includes_str cs p)"

text \<open>
  \<open>String.prototype.trim\<close> removes white space and line terminators from both ends:
  TAB, LF, VT, FF, CR, SP, NBSP, the code points of category Zs, LS, PS and ZWNBSP.
\<close>

definition js_whitespace :: "code_unit \<Rightarrow> bool" where
  "js_whitespace c =
     (c \<in> {0x9, 0xA, 0xB, 0xC, 0xD, 0x20, 0xA0, 0x1680, 0x2028, 0x2029, 0x202F, 0x205F, 0x3000, 0xFEFF}
      \<or> (0x2000 \<le> c \<and> c \<le> 0x200A))"

definition trim :: "jsstring \<Rightarrow> jsstring" where
  "trim s = rev (dropWhile js_whitespace (rev (dropWhile js_whitespace s)))"

subsection \<open>\<open>Buffer.prototype.toString\<close>: decoding UTF-8\<close>

text \<open>
  \<open>buf.toString()\<close> decodes the bytes as UTF-8 and replaces every ill-formed sequence by
  U+FFFD; a byte order mark is kept. The decoder is the state machine of the Encoding Standard: the code point under
  construction, the number of continuation bytes seen and needed, and the bounds the next
  continuation byte has to respect. A byte that breaks a sequence is read again from the
  initial state. The masks \<open>b & 0x1F\<close>, \<open>b & 0xF\<close>, \<open>b & 0x7\<close> and \<open>b & 0x3F\<close> are written
  as remainders.
\<close>

record utf8_state =
  code_point :: nat
  bytes_seen :: nat
  bytes_needed :: nat
  lower_boundary :: nat
  upper_boundary :: nat

definition utf8_initial :: utf8_state where
  "utf8_initial =
     \<lparr>code_point = 0, bytes_seen = 0, bytes_needed = 0, lower_boundary = 0x80, upper_boundary = 0xBF\<rparr>"

function utf8_decode :: "utf8_state \<Rightarrow> buffer \<Rightarrow> nat list" where
  "utf8_decode st [] = (if bytes_needed st \<noteq> 0 then [0xFFFD] else [])"
| "utf8_decode st (b # bs) =
     (let n = unat b in
      if bytes_needed st = 0 then
        if n \<le> 0x7F then n # utf8_decode utf8_initial bs
        else if 0xC2 \<le> n \<and> n \<le> 0xDF then
          utf8_decode (utf8_initial\<lparr>bytes_needed := 1, code_point := n mod 32\<rparr>) bs
        else if 0xE0 \<le> n \<and> n \<le> 0xEF then
          utf8_decode (utf8_initial\<lparr>lower_boundary := (if n = 0xE0 then 0xA0 else 0x80),
                                     upper_boundary := (if n = 0xED then 0x9F else 0xBF),
                                     bytes_needed := 2, code_point := n mod 16\<rparr>) bs
        else if 0xF0 \<le> n \<and> n \<le> 0xF4 then
          utf8_decode (utf8_initial\<lparr>lower_boundary := (if n = 0xF0 then 0x90 else 0x80),
                                     upper_boundary := (if n = 0xF4 then 0x8F else 0xBF),
                                     bytes_needed := 3, code_point := n mod 8\<rparr>) bs
        else 0xFFFD # utf8_decode utf8_initial bs
      else if n < lower_boundary st \<or> upper_boundary st < n then
        0xFFFD # utf8_decode utf8_initial (b # bs)
      else
        (let st' = st\<lparr>lower_boundary := 0x80, upper_boundary := 0xBF,
                        code_point := code_point st * 64 + n mod 64,
                        bytes_seen := bytes_seen st + 1\<rparr>
         in if bytes_seen st' \<noteq> bytes_needed st' then utf8_decode st' bs
            else code_point st' # utf8_decode utf8_initial bs))"
  by pat_completeness auto
termination
  by (relation "measure (\<lambda>(st, bs). 2 * length bs + (if bytes_needed st = 0 then 0 else 1))")
     (auto simp: utf8_initial_def)

text \<open>A code point becomes one UTF-16 code unit, or a surrogate pair above the BMP.\<close>

definition utf16_units :: "nat \<Rightarrow> jsstring" where
  "utf16_units cp =
     (if cp < 0x10000 then [of_nat cp]
      else [of_nat (0xD800 + (cp - 0x10000) div 0x400), of_nat (0xDC00 + (cp - 0x10000) mod 0x400)])"

definition toString :: "buffer \<Rightarrow> jsstring" where
  "toString data = concat (map utf16_units (utf8_decode utf8_initial data))"


section \<open>Regular expressions\<close>

text \<open>
  The fragment of the regular-expression language that the program uses: the assertions
  \<open>^\<close> and \<open>$\<close> (without the \<open>m\<close> flag: start and end of the input), a character class
  given by its ranges, concatenation and the quantifier \<open>+\<close>. \<open>ends r s i\<close> lists the
  positions at which a match of \<open>r\<close> that starts at position \<open>i\<close> of \<open>s\<close> can end, in the
  order in which a backtracking matcher tries them (the quantifier is greedy). An iteration of
  \<open>+\<close> that consumes nothing is not repeated, so \<open>length s - i\<close> further iterations suffice.
\<close>

datatype regex =
    Bol
  | Eol
  | CharClass "(code_unit \<times> code_unit) list"
  | Cat regex regex
  | Plus regex

definition in_class :: "(code_unit \<times> code_unit) list \<Rightarrow> code_unit \<Rightarrow> bool" where
  "in_class ranges c = list_ex (\<lambda>(lo, hi). lo \<le> c \<and> c \<le> hi) ranges"

fun plus_iter :: "(nat \<Rightarrow> nat list) \<Rightarrow> nat \<Rightarrow> nat \<Rightarrow> nat list" where
  "plus_iter f 0 i = f i"
| "plus_iter f (Suc n) i = concat (map (\<lambda>j. (if i < j then plus_iter f n j else []) @ [j]) (f i))"

fun ends :: "regex \<Rightarrow> jsstring \<Rightarrow> nat \<Rightarrow> nat list" where
  "ends Bol s i = (if i = 0 then [i] else [])"
| "ends Eol s i = (if i = length s then [i] else [])"
| "ends (CharClass ranges) s i = (if i < length s \<and> in_class ranges (s ! i) then [Suc i] else [])"
| "ends (Cat r1 r2) s i = concat (map (ends r2 s) (ends r1 s i))"
| "ends (Plus r) s i = plus_iter (ends r s) (length s - i) i"

text \<open>\<open>RegExp.prototype.test\<close> on a regular expression without flags: a match may start anywhere.\<close>

definition test :: "regex \<Rightarrow> jsstring \<Rightarrow> bool" where
  "test r s = list_ex (\<lambda>i. ends r s i \<noteq> []) [0..<Suc (length s)]"

section \<open>Key validation\<close>

text \<open>
  \<^verbatim>\<open>const isValidKey = (key) => /^[a-zA-Z0-9 _-]+$/.test(key) && !key.startsWith(' ') && !key.endsWith(' ');\<close>
\<close>

definition key_class :: "(code_unit \<times> code_unit) list" where
  "key_class =
     [(of_char CHR ''a'', of_char CHR ''z''), (of_char CHR ''A'', of_char CHR ''Z''),
      (of_char CHR ''0'', of_char CHR ''9''), (of_char CHR '' '', of_char CHR '' ''),
      (of_char CHR ''_'', of_char CHR ''_''), (of_char CHR ''-'', of_char CHR ''-'')]"

definition key_regex :: regex where
  "key_regex = Cat Bol (Cat (Plus (CharClass key_class)) Eol)"

definition isValidKey :: "jsstring \<Rightarrow> bool" where
  "isValidKey key \<longleftrightarrow>
     test key_regex key \<and> \<not> startsWith key (str '' '') \<and> \<not> endsWith key (str '' '')"

text \<open>
  The rule as the specification words it: a key is non-empty, contains only letters, digits,
  space, underscore and hyphen, and has no leading or trailing space. Letters are the 52
  letters of ASCII, digits the ten digits of ASCII.
\<close>

definition is_letter :: "code_unit \<Rightarrow> bool" where
  "is_letter c \<longleftrightarrow>
     (of_char CHR ''a'' \<le> c \<and> c \<le> of_char CHR ''z'') \<or> (of_char CHR ''A'' \<le> c \<and> c \<le> of_char CHR ''Z'')"

definition is_digit :: "code_unit \<Rightarrow> bool" where
  "is_digit c \<longleftrightarrow> of_char CHR ''0'' \<le> c \<and> c \<le> of_char CHR ''9''"

definition key_rule :: "jsstring \<Rightarrow> bool" where
  "key_rule key \<longleftrightarrow>
     key \<noteq> [] \<and>
     (\<forall>c \<in> set key. is_letter c \<or> is_digit c \<or> c = of_char CHR '' '' \<or> c = of_char CHR ''_''
        \<or> c = of_char CHR ''-'') \<and>
     hd key \<noteq> of_char CHR '' '' \<and> last key \<noteq> of_char CHR '' ''"


section \<open>The store: a JavaScript object\<close>

text \<open>
  \<^verbatim>\<open>let store = {};\<close> The store is an ordinary object whose prototype is \<open>Object.prototype\<close>.
  Its own properties map a key to a string value, as in the data model of the specification;
  a store file whose JSON is anything but an object of strings is outside the model.
  A property read \<open>store[key]\<close> that finds no own property continues in the prototype, where
  it finds the built-in methods and the accessor \<open>__proto__\<close>; all of them are objects.
\<close>

type_synonym js_object = "jsstring \<rightharpoonup> jsstring"

datatype js_value = Undefined | StringValue jsstring | ObjectValue

definition Object_prototype :: "jsstring list" where
  "Object_prototype = map str
     [''constructor'', ''__defineGetter__'', ''__defineSetter__'', ''hasOwnProperty'',
      ''__lookupGetter__'', ''__lookupSetter__'', ''isPrototypeOf'', ''propertyIsEnumerable'',
      ''toString'', ''valueOf'', ''__proto__'', ''toLocaleString'']"

text \<open>\<open>obj[key]\<close>\<close>

definition get_property :: "js_object \<Rightarrow> jsstring \<Rightarrow> js_value" where
  "get_property obj key =
     (case obj key of
        Some v \<Rightarrow> StringValue v
      | None \<Rightarrow> if key \<in> set Object_prototype then ObjectValue else Undefined)"

text \<open>The conversion to a boolean of \<open>if (v)\<close>: the empty string and \<open>undefined\<close> are falsy.\<close>

fun truthy :: "js_value \<Rightarrow> bool" where
  "truthy Undefined = False"
| "truthy (StringValue v) = (v \<noteq> [])"
| "truthy ObjectValue = True"

text \<open>
  \<open>obj[key] = value\<close> with a string value: an own property is overwritten; without one, the
  assignment reaches the setter of \<open>__proto__\<close> in the prototype, which ignores a value that
  is not an object, and creates an own property for every other key.
\<close>

definition set_property :: "js_object \<Rightarrow> jsstring \<Rightarrow> jsstring \<Rightarrow> js_object" where
  "set_property obj key v =
     (case obj key of
        Some _ \<Rightarrow> obj(key \<mapsto> v)
      | None \<Rightarrow> if key = str ''__proto__'' then obj else obj(key \<mapsto> v))"

text \<open>\<open>delete obj[key]\<close>\<close>

definition delete_property :: "js_object \<Rightarrow> jsstring \<Rightarrow> js_object" where
  "delete_property obj key = obj(key := None)"

section \<open>Errors, files and the console\<close>

datatype error_class = SyntaxError | TypeError | Error

record js_error =
  err_class :: error_class
  message :: jsstring

text \<open>
  A path of the file system is absent, or names something that cannot be read (reading it
  throws the given error), or holds bytes.
\<close>

type_synonym filesystem = "jsstring \<rightharpoonup> (js_error + buffer)"

datatype console_line = Log jsstring | Err jsstring

text \<open>
  The state of a run: the global variable \<open>store\<close>, the file system, and the lines written
  with \<open>console.log\<close> and \<open>console.error\<close>, oldest first. The prompts that \<open>readline\<close>
  writes are not recorded.
\<close>

record state =
  store :: js_object
  files :: filesystem
  console :: "console_line list"

definition console_log :: "jsstring \<Rightarrow> state \<Rightarrow> state" where
  "console_log msg s = s\<lparr>console := console s @ [Log msg]\<rparr>"

definition console_error :: "jsstring \<Rightarrow> state \<Rightarrow> state" where
  "console_error msg s = s\<lparr>console := console s @ [Err msg]\<rparr>"

definition ENOENT :: "jsstring \<Rightarrow> js_error" where
  "ENOENT path =
     \<lparr>err_class = Error,
      message = str ''ENOENT: no such file or directory, open '' @ [0x27] @ path @ [0x27]\<rparr>"

definition existsSync :: "state \<Rightarrow> jsstring \<Rightarrow> bool" where
  "existsSync s path \<longleftrightarrow> files s path \<noteq> None"

text \<open>\<open>fs.readFileSync(path)\<close> and \<open>fs.readFileSync(path, 'utf8')\<close>\<close>

definition readFileSync :: "state \<Rightarrow> jsstring \<Rightarrow> js_error + buffer" where
  "readFileSync s path = (case files s path of None \<Rightarrow> Inl (ENOENT path) | Some r \<Rightarrow> r)"

definition readFileSync_utf8 :: "state \<Rightarrow> jsstring \<Rightarrow> js_error + jsstring" where
  "readFileSync_utf8 s path =
     (case readFileSync s path of Inl e \<Rightarrow> Inl e | Inr data \<Rightarrow> Inr (toString data))"

text \<open>
  \<open>Buffer.from(string)\<close> encodes the string as UTF-8; a surrogate that is not part of a pair
  becomes U+FFFD.
\<close>

definition utf8_bytes :: "nat \<Rightarrow> buffer" where
  "utf8_bytes cp =
     (if cp < 0x80 then [of_nat cp]
      else if cp < 0x800 then [of_nat (0xC0 + cp div 0x40), of_nat (0x80 + cp mod 0x40)]
      else if cp < 0x10000 then
        [of_nat (0xE0 + cp div 0x1000), of_nat (0x80 + cp div 0x40 mod 0x40), of_nat (0x80 + cp mod 0x40)]
      else
        [of_nat (0xF0 + cp div 0x40000), of_nat (0x80 + cp div 0x1000 mod 0x40),
         of_nat (0x80 + cp div 0x40 mod 0x40), of_nat (0x80 + cp mod 0x40)])"

fun code_points :: "jsstring \<Rightarrow> nat list" where
  "code_points [] = []"
| "code_points [u] = [if 0xD800 \<le> u \<and> u \<le> 0xDFFF then 0xFFFD else unat u]"
| "code_points (u # v # us) =
     (if 0xD800 \<le> u \<and> u \<le> 0xDBFF \<and> 0xDC00 \<le> v \<and> v \<le> 0xDFFF
      then (0x10000 + (unat u - 0xD800) * 0x400 + (unat v - 0xDC00)) # code_points us
      else (if 0xD800 \<le> u \<and> u \<le> 0xDFFF then 0xFFFD else unat u) # code_points (v # us))"

definition Buffer_from :: "jsstring \<Rightarrow> buffer" where
  "Buffer_from s = concat (map utf8_bytes (code_points s))"


section \<open>The runtime: cryptography, JSON and failing writes\<close>

text \<open>
  The program calls \<open>crypto.publicEncrypt\<close> and \<open>crypto.privateDecrypt\<close>, both with
  \<open>padding: crypto.constants.RSA_PKCS1_OAEP_PADDING\<close>, and \<open>JSON.stringify\<close> and
  \<open>JSON.parse\<close>. They belong to Node, not to the program, and are parameters of the model,
  as is the decision of the operating system to let a write fail:
  \<^item> \<open>publicEncrypt env key data\<close> and \<open>privateDecrypt env key data\<close> take the text of a
    PEM key file and return the result or the error thrown. Encryption with OAEP draws a
    random seed; \<open>env\<close> stands for the primitives of one run, the seed included.
  \<^item> \<open>max_plaintext env key\<close> is the largest plaintext, in bytes, that OAEP accepts under
    the key: the size of the modulus less twice the size of the hash less two.
  \<^item> \<open>JSON_stringify env obj gap\<close> is \<open>JSON.stringify(obj)\<close> when \<open>gap = 0\<close> and
    \<open>JSON.stringify(obj, null, gap)\<close> otherwise.
  \<^item> \<open>JSON_parse env text\<close> is the object parsed, or \<open>Inl m\<close> when \<open>JSON.parse\<close> throws a
    \<open>SyntaxError\<close> with message \<open>m\<close>.
  \<^item> \<open>write_failure env fs path data\<close> is \<open>None\<close> when writing \<open>data\<close> to \<open>path\<close> in the file
    system \<open>fs\<close> succeeds, and \<open>Some (e, fs')\<close> when \<open>fs.writeFileSync\<close> throws \<open>e\<close> and
    leaves the file system \<open>fs'\<close> behind (untouched, or with a truncated file).
\<close>

record env =
  publicEncrypt :: "jsstring \<Rightarrow> buffer \<Rightarrow> js_error + buffer"
  privateDecrypt :: "jsstring \<Rightarrow> buffer \<Rightarrow> js_error + buffer"
  max_plaintext :: "jsstring \<Rightarrow> nat"
  JSON_stringify :: "js_object \<Rightarrow> nat \<Rightarrow> jsstring"
  JSON_parse :: "jsstring \<Rightarrow> jsstring + js_object"
  write_failure :: "filesystem \<Rightarrow> jsstring \<Rightarrow> buffer \<Rightarrow> (js_error \<times> filesystem) option"

text \<open>
  \<open>fs.writeFileSync(path, data)\<close>: the state after the write, or the error thrown together
  with the state the failed write leaves.
\<close>

definition writeFileSync :: "env \<Rightarrow> jsstring \<Rightarrow> buffer \<Rightarrow> state \<Rightarrow> (js_error \<times> state) + state" where
  "writeFileSync env path data s =
     (case write_failure env (files s) path data of
        None \<Rightarrow> Inr (s\<lparr>files := (files s)(path \<mapsto> Inr data)\<rparr>)
      | Some (e, fs') \<Rightarrow> Inl (e, s\<lparr>files := fs'\<rparr>))"

section \<open>The program\<close>

text \<open>
  A function of the program either returns (\<open>Next\<close>, with its result and the new state) or
  ends the process (\<open>Halt\<close>): by \<open>process.exit(n)\<close>, by an exception that nothing catches, or
  because it waits for an answer and the input has ended. The answers typed by the user are a
  list; \<open>askQuestion\<close> takes the first one.
\<close>

datatype halt = Exit nat | Uncaught js_error | InputClosed

datatype 'a step = Next 'a state | Halt halt state

subsection \<open>\<open>isEncrypted\<close>\<close>

text \<open>
  \<^verbatim>\<open>const isEncrypted = (filePath) => {
  const data = fs.readFileSync(filePath);
  return !data.toString().startsWith('{');
};\<close>
\<close>

definition isEncrypted :: "state \<Rightarrow> jsstring \<Rightarrow> js_error + bool" where
  "isEncrypted s filePath =
     (case readFileSync s filePath of
        Inl e \<Rightarrow> Inl e
      | Inr data \<Rightarrow> Inr (\<not> startsWith (toString data) (str ''{'')))"

subsection \<open>\<open>decryptStore\<close>\<close>

text \<open>The \<open>catch\<close> block of \<open>decryptStore\<close>: exit code 2 for a \<open>SyntaxError\<close>, 3 otherwise.\<close>

definition decryptStore_catch :: "js_error \<Rightarrow> state \<Rightarrow> js_object step" where
  "decryptStore_catch error s =
     (if err_class error = SyntaxError
      then Halt (Exit 2) (console_error (str ''Invalid store file.'') s)
      else Halt (Exit 3)
             (console_error (str ''Error details: '' @ message error)
               (console_error (str ''Decryption failed.'') s)))"

definition decryptStore :: "env \<Rightarrow> jsstring \<Rightarrow> jsstring \<Rightarrow> state \<Rightarrow> js_object step" where
  "decryptStore env STORE_FILE privateKeyPath s =
     (case readFileSync s STORE_FILE of
        Inl e \<Rightarrow> decryptStore_catch e s
      | Inr encryptedData \<Rightarrow>
     (case readFileSync_utf8 s privateKeyPath of
        Inl e \<Rightarrow> decryptStore_catch e s
      | Inr privateKey \<Rightarrow>
     (case privateDecrypt env privateKey encryptedData of
        Inl e \<Rightarrow> decryptStore_catch e s
      | Inr decryptedData \<Rightarrow>
     (case JSON_parse env (toString decryptedData) of
        Inl m \<Rightarrow> decryptStore_catch \<lparr>err_class = SyntaxError, message = m\<rparr> s
      | Inr obj \<Rightarrow> Next obj s))))"

subsection \<open>\<open>encryptStore\<close>\<close>

text \<open>
  The \<open>catch\<close> block of \<open>encryptStore\<close> reports the error and returns; the \<open>try\<close> block ends
  the process with code 0 once the file is written. The write is inside the \<open>try\<close> block, so
  that a write that fails is reported like a failed encryption.
\<close>

definition encryptStore_catch :: "js_error \<Rightarrow> state \<Rightarrow> state" where
  "encryptStore_catch error s =
     (if includes_str (message error) (str ''invalid key'')
      then console_error (str ''Invalid public key file.'') s
      else console_error (str ''Error details: '' @ message error)
             (console_error (str ''Encryption failed.'') s))"

fun encryptStore :: "env \<Rightarrow> jsstring \<Rightarrow> jsstring list \<Rightarrow> state \<Rightarrow> jsstring list step" where
  "encryptStore env STORE_FILE [] s = Halt InputClosed s"
| "encryptStore env STORE_FILE (publicKeyPath # inputs) s =
     (case readFileSync_utf8 s publicKeyPath of
        Inl e \<Rightarrow> Next inputs (encryptStore_catch e s)
      | Inr publicKey \<Rightarrow>
     (case publicEncrypt env publicKey (Buffer_from (JSON_stringify env (store s) 0)) of
        Inl e \<Rightarrow> Next inputs (encryptStore_catch e s)
      | Inr encryptedData \<Rightarrow>
     (case writeFileSync env STORE_FILE encryptedData s of
        Inl (e, s') \<Rightarrow> Next inputs (encryptStore_catch e s')
      | Inr s' \<Rightarrow> Halt (Exit 0) (console_log (str ''Store encrypted and saved.'') s'))))"

subsection \<open>The menu\<close>

text \<open>
  Option 1, after the key has passed \<open>isValidKey\<close> and the value has been read:
  \<^verbatim>\<open>if (store[key]) {
  console.log(`Warning: Key '${key}' already exists. Value was overwritten.`);
}
store[key] = value;
console.log(`Added/Updated ${key}: ${value}`);\<close>
\<close>

definition overwrite_warning :: "jsstring \<Rightarrow> console_line" where
  "overwrite_warning key =
     Log (str ''Warning: Key '' @ [0x27] @ key @ [0x27] @ str '' already exists. Value was overwritten.'')"

definition set_key :: "jsstring \<Rightarrow> jsstring \<Rightarrow> state \<Rightarrow> state" where
  "set_key key v s =
     (let s1 = (if truthy (get_property (store s) key)
                then s\<lparr>console := console s @ [overwrite_warning key]\<rparr> else s);
          s2 = s1\<lparr>store := set_property (store s1) key v\<rparr>
      in console_log (str ''Added/Updated '' @ key @ str '': '' @ v) s2)"

text \<open>The loop of option 1: an empty answer leaves it, an invalid key asks again.\<close>

fun add_key_value :: "jsstring list \<Rightarrow> state \<Rightarrow> jsstring list step" where
  "add_key_value [] s = Halt InputClosed s"
| "add_key_value (key # inputs) s =
     (if key = [] then Next inputs s
      else if \<not> isValidKey key then
        add_key_value inputs (console_log (str ''Invalid key. Please enter a valid key.'') s)
      else (case inputs of
              [] \<Rightarrow> Halt InputClosed s
            | v # inputs' \<Rightarrow> Next inputs' (set_key key v s)))"

text \<open>
  Option 2, after the key has been read and found non-empty:
  \<^verbatim>\<open>if (store[delKey]) {
  delete store[delKey];
  console.log(`Deleted key: ${delKey}`);
} else {
  console.log('Key not found.');
}\<close>
\<close>

definition delete_key :: "jsstring \<Rightarrow> state \<Rightarrow> state" where
  "delete_key delKey s =
     (if truthy (get_property (store s) delKey)
      then console_log (str ''Deleted key: '' @ delKey) (s\<lparr>store := delete_property (store s) delKey\<rparr>)
      else console_log (str ''Key not found.'') s)"

fun delete_option :: "jsstring list \<Rightarrow> state \<Rightarrow> jsstring list step" where
  "delete_option [] s = Halt InputClosed s"
| "delete_option (delKey # inputs) s =
     (if delKey = [] then Next inputs s else Next inputs (delete_key delKey s))"

definition menu_text :: jsstring where
  "menu_text =
     [0xA] @ str ''        Menu:'' @
     [0xA] @ str ''        (1) Add key-value'' @
     [0xA] @ str ''        (2) Delete key'' @
     [0xA] @ str ''        (3) Show current key-value store'' @
     [0xA] @ str ''        (4) Encrypt key-value store'' @
     [0xA] @ str ''        (5) Exit'' @
     [0xA] @ str ''    ''"

text \<open>One turn of the \<open>while (true)\<close> loop of \<open>main\<close>: the menu, the choice, the option.\<close>

fun menu :: "env \<Rightarrow> jsstring \<Rightarrow> jsstring list \<Rightarrow> state \<Rightarrow> jsstring list step" where
  "menu env STORE_FILE [] s = Halt InputClosed (console_log menu_text s)"
| "menu env STORE_FILE (choice # inputs) s =
     (let s = console_log menu_text s; c = trim choice in
      if c = str ''1'' then add_key_value inputs s
      else if c = str ''2'' then delete_option inputs s
      else if c = str ''3'' then
        Next inputs (console_log (str ''Current store: '' @ JSON_stringify env (store s) 2) s)
      else if c = str ''4'' then encryptStore env STORE_FILE inputs s
      else if c = str ''5'' then Halt (Exit 0) (console_log (str ''Exiting without encryption'') s)
      else Next inputs (console_log (str ''Invalid option. Please choose a no between 1 and 5.'') s))"


text \<open>Every turn that returns has consumed at least the choice, so the loop is well defined.\<close>

lemma add_key_value_shorter: "add_key_value inputs s = Next inputs' s' \<Longrightarrow> length inputs' < length inputs"
  by (induction inputs s rule: add_key_value.induct) (auto split: if_splits list.splits)

lemma delete_option_shorter: "delete_option inputs s = Next inputs' s' \<Longrightarrow> length inputs' < length inputs"
  by (cases inputs) (auto split: if_splits)

lemma encryptStore_shorter:
  "encryptStore env STORE_FILE inputs s = Next inputs' s' \<Longrightarrow> length inputs' < length inputs"
  by (cases inputs) (auto split: sum.splits prod.splits)

lemma menu_shorter: "menu env STORE_FILE inputs s = Next inputs' s' \<Longrightarrow> length inputs' < length inputs"
proof (cases inputs)
  case Nil
  assume "menu env STORE_FILE inputs s = Next inputs' s'"
  with Nil show ?thesis by simp
next
  case (Cons choice rest)
  assume "menu env STORE_FILE inputs s = Next inputs' s'"
  with Cons have "length inputs' \<le> length rest"
    by (auto simp: Let_def split: if_splits
          dest: add_key_value_shorter delete_option_shorter encryptStore_shorter less_imp_le)
  with Cons show ?thesis by simp
qed

function menu_loop :: "env \<Rightarrow> jsstring \<Rightarrow> jsstring list \<Rightarrow> state \<Rightarrow> halt \<times> state" where
  "menu_loop env STORE_FILE inputs s =
     (case menu env STORE_FILE inputs s of
        Halt h s' \<Rightarrow> (h, s')
      | Next inputs' s' \<Rightarrow> menu_loop env STORE_FILE inputs' s')"
  by pat_completeness auto
termination
  by (relation "measure (\<lambda>(env, STORE_FILE, inputs, s). length inputs)")
     (auto dest: menu_shorter)

text \<open>
  The start of \<open>main\<close>: an existing store file is decrypted or parsed. \<open>decryptStore\<close> ends
  the process itself when it fails, so the \<open>catch\<close> around its call is never entered. An
  error thrown by \<open>isEncrypted\<close> is caught by nothing.
\<close>

definition load_store :: "env \<Rightarrow> jsstring \<Rightarrow> jsstring list \<Rightarrow> state \<Rightarrow> jsstring list step" where
  "load_store env STORE_FILE inputs s =
     (if existsSync s STORE_FILE then
        (case isEncrypted s STORE_FILE of
           Inl e \<Rightarrow> Halt (Uncaught e) s
         | Inr True \<Rightarrow>
             (case inputs of
                [] \<Rightarrow> Halt InputClosed s
              | privateKeyPath # inputs' \<Rightarrow>
                  (case decryptStore env STORE_FILE privateKeyPath s of
                     Halt h s' \<Rightarrow> Halt h s'
                   | Next obj s' \<Rightarrow>
                       Next inputs' (console_log (str ''Store successfully decrypted.'') (s'\<lparr>store := obj\<rparr>))))
         | Inr False \<Rightarrow>
             (let s = console_log (str ''Store is not encrypted. Proceeding with the existing data.'') s in
              case readFileSync_utf8 s STORE_FILE of
                Inl e \<Rightarrow> Halt (Exit 2) (console_error (str ''Invalid store file.'') s)
              | Inr text \<Rightarrow>
                  (case JSON_parse env text of
                     Inl m \<Rightarrow> Halt (Exit 2) (console_error (str ''Invalid store file.'') s)
                   | Inr obj \<Rightarrow> Next inputs (s\<lparr>store := obj\<rparr>))))
      else Next inputs s)"

text \<open>\<open>main\<close>, started with the empty store \<^verbatim>\<open>let store = {};\<close>\<close>

definition main :: "env \<Rightarrow> jsstring \<Rightarrow> jsstring list \<Rightarrow> filesystem \<Rightarrow> halt \<times> state" where
  "main env STORE_FILE inputs fs =
     (case load_store env STORE_FILE inputs \<lparr>store = Map.empty, files = fs, console = []\<rparr> of
        Halt h s \<Rightarrow> (h, s)
      | Next inputs' s \<Rightarrow> menu_loop env STORE_FILE inputs' s)"


section \<open>What the claims assume of the runtime\<close>

text \<open>
  The properties of RSA-OAEP and of JSON that the round trip and the capacity boundary rest
  on. They are hypotheses of the theorems that need them, never facts of the model.
  \<^item> \<open>key_pair\<close>: the private key decrypts what the public key encrypted.
  \<^item> \<open>accepts_within_capacity\<close>: encryption succeeds on a plaintext within the capacity.
  \<^item> \<open>rejects_oversize\<close>: encryption of a longer plaintext throws, and the message of the
    error (OpenSSL's \<open>data too large for key size\<close>) does not contain \<open>invalid key\<close>.
  \<^item> \<open>json_roundtrip\<close>: parsing the UTF-8 encoding of \<open>JSON.stringify(obj)\<close> gives \<open>obj\<close>.
  \<^item> \<open>writable\<close>: no write to the path fails.
\<close>

definition key_pair :: "env \<Rightarrow> jsstring \<Rightarrow> jsstring \<Rightarrow> bool" where
  "key_pair env publicKey privateKey \<longleftrightarrow>
     (\<forall>data c. publicEncrypt env publicKey data = Inr c \<longrightarrow> privateDecrypt env privateKey c = Inr data)"

definition accepts_within_capacity :: "env \<Rightarrow> jsstring \<Rightarrow> bool" where
  "accepts_within_capacity env publicKey \<longleftrightarrow>
     (\<forall>data. length data \<le> max_plaintext env publicKey \<longrightarrow> (\<exists>c. publicEncrypt env publicKey data = Inr c))"

definition rejects_oversize :: "env \<Rightarrow> jsstring \<Rightarrow> bool" where
  "rejects_oversize env publicKey \<longleftrightarrow>
     (\<forall>data. max_plaintext env publicKey < length data \<longrightarrow>
        (\<exists>e. publicEncrypt env publicKey data = Inl e \<and> \<not> includes_str (message e) (str ''invalid key'')))"

definition writable :: "env \<Rightarrow> filesystem \<Rightarrow> jsstring \<Rightarrow> bool" where
  "writable env fs path \<longleftrightarrow> (\<forall>data. write_failure env fs path data = None)"

definition json_roundtrip :: "env \<Rightarrow> js_object \<Rightarrow> bool" where
  "json_roundtrip env obj \<longleftrightarrow>
     JSON_parse env (toString (Buffer_from (JSON_stringify env obj 0))) = Inr obj"

section \<open>A small runtime and file system for concrete runs\<close>

text \<open>
  A runtime with a capacity of five bytes whose cipher reverses the bytes behind a zero byte,
  whose keys are the texts \<open>PUBLIC KEY\<close> and \<open>PRIVATE KEY\<close>, and whose JSON knows the empty
  object and objects with the one key \<open>a\<close>, and which refuses to write \<open>readonly.enc\<close>;
  and a file system with key files and store files. The theorems below are applied to them.
\<close>

definition example_env :: env where
  "example_env =
     \<lparr>publicEncrypt = (\<lambda>key data.
        if key \<noteq> str ''PUBLIC KEY'' then
          Inl \<lparr>err_class = Error, message = str ''error:1E08010C:DECODER routines::unsupported''\<rparr>
        else if 5 < length data then
          Inl \<lparr>err_class = Error,
               message = str ''error:0200006E:rsa routines::data too large for key size''\<rparr>
        else Inr (0 # rev data)),
      privateDecrypt = (\<lambda>key data.
        if key = str ''PRIVATE KEY'' \<and> take 1 data = [0] then Inr (rev (drop 1 data))
        else Inl \<lparr>err_class = Error,
                  message = str ''error:02000079:rsa routines::oaep decoding error''\<rparr>),
      max_plaintext = (\<lambda>key. 5),
      JSON_stringify = (\<lambda>obj gap.
        case obj (str ''a'') of None \<Rightarrow> str ''{}'' | Some v \<Rightarrow> str ''{a:'' @ v @ str ''}''),
      JSON_parse = (\<lambda>text.
        if text = str ''{}'' then Inr Map.empty
        else if text = str ''{a:1}'' then Inr [str ''a'' \<mapsto> str ''1'']
        else Inl (str ''Unexpected token'')),
      write_failure = (\<lambda>fs path data.
        if path = str ''readonly.enc'' then
          Some (\<lparr>err_class = Error,
                 message = str ''EACCES: permission denied, open '' @ [0x27] @ path @ [0x27]\<rparr>, fs)
        else None)\<rparr>"

definition example_files :: filesystem where
  "example_files =
     [str ''pub.pem'' \<mapsto> Inr (Buffer_from (str ''PUBLIC KEY'')),
      str ''priv.pem'' \<mapsto> Inr (Buffer_from (str ''PRIVATE KEY'')),
      str ''other.pem'' \<mapsto> Inr (Buffer_from (str ''OTHER KEY'')),
      str ''plain.json'' \<mapsto> Inr (Buffer_from (str ''{a:1}'')),
      str ''store.enc'' \<mapsto> Inr (0 # Buffer_from (str ''}1:a{'')),
      str ''garbled.enc'' \<mapsto> Inr (0 # Buffer_from (str ''}1:a'')),
      str ''empty.enc'' \<mapsto> Inr []]"

definition example_state :: "js_object \<Rightarrow> state" where
  "example_state obj = \<lparr>store = obj, files = example_files, console = []\<rparr>"

definition empty_value_store :: js_object where
  "empty_value_store = [str ''a'' \<mapsto> []]"

definition oversize_store :: js_object where
  "oversize_store = [str ''a'' \<mapsto> str ''12'']"

section \<open>Properties of the decoder\<close>

text \<open>
  The first code unit of \<open>data.toString()\<close> is an opening brace exactly when the first byte
  of \<open>data\<close> is: a byte below \<open>0x80\<close> decodes to itself, and a sequence that starts with a
  byte from \<open>0x80\<close> on yields U+FFFD or a code point from U+0080 to U+10FFFF. The invariant
  \<open>utf8_pending\<close> bounds the code points that a sequence under way can still produce.
\<close>

lemma mod_window: "m * k \<le> n \<Longrightarrow> n < m * k + m \<Longrightarrow> n mod m = n - m * (k::nat)"
proof -
  assume a: "m * k \<le> n" "n < m * k + m"
  then have "n = m * k + (n - m * k)" by simp
  then have "n mod m = (m * k + (n - m * k)) mod m" by simp
  also have "\<dots> = (n - m * k) mod m" by (simp only: mod_mult_self4)
  also have "\<dots> = n - m * k" using a by simp
  finally show ?thesis .
qed

lemma continuation_mod64: "128 \<le> n \<Longrightarrow> n < 192 \<Longrightarrow> n mod 64 = n - (128::nat)"
proof -
  assume a: "128 \<le> n" "n < 192"
  then have "n = 64 * 2 + (n - 128)" by simp
  then have "n mod 64 = (64 * 2 + (n - 128)) mod 64" by simp
  also have "\<dots> = (n - 128) mod 64" by (simp only: mod_mult_self4)
  also have "\<dots> = n - 128" using a by simp
  finally show ?thesis .
qed

definition utf8_pending :: "utf8_state \<Rightarrow> bool" where
  "utf8_pending st \<longleftrightarrow>
     bytes_seen st < bytes_needed st \<and> 0x80 \<le> lower_boundary st \<and> upper_boundary st \<le> 0xBF \<and>
     0x80 \<le> (code_point st * 64 + (lower_boundary st - 0x80)) * 64 ^ (bytes_needed st - bytes_seen st - 1) \<and>
     (code_point st * 64 + (upper_boundary st - 0x80) + 1) * 64 ^ (bytes_needed st - bytes_seen st - 1) \<le> 0x110000"

lemma pending_first:
  "utf8_pending st \<Longrightarrow> \<exists>c cs. utf8_decode st bs = c # cs \<and> 0x80 \<le> c \<and> c < 0x110000"
proof (induction bs arbitrary: st)
  case Nil
  then show ?case by (simp add: utf8_pending_def)
next
  case (Cons b bs)
  let ?n = "unat b"
  from Cons.prems have needed: "bytes_needed st \<noteq> 0" by (auto simp: utf8_pending_def)
  show ?case
  proof (cases "?n < lower_boundary st \<or> upper_boundary st < ?n")
    case True
    with needed show ?thesis by (simp add: Let_def)
  next
    case False
    with Cons.prems have bnd: "0x80 \<le> lower_boundary st" "upper_boundary st \<le> 0xBF"
      "lower_boundary st \<le> ?n" "?n \<le> upper_boundary st"
      by (simp_all add: utf8_pending_def)
    then have "128 \<le> ?n" "?n < 192" by linarith+
    then have "?n mod 64 = ?n - 0x80" by (rule continuation_mod64)
    with bnd have rng: "?n mod 64 = ?n - 0x80" "lower_boundary st \<le> ?n" "?n \<le> upper_boundary st"
      by simp_all
    define st' where "st' = st\<lparr>lower_boundary := 0x80, upper_boundary := 0xBF,
                        code_point := code_point st * 64 + ?n mod 64,
                        bytes_seen := bytes_seen st + 1\<rparr>"
    show ?thesis
    proof (cases "bytes_seen st' \<noteq> bytes_needed st'")
      case True
      obtain r where r: "bytes_needed st - bytes_seen st - 1 = Suc r"
        using True Cons.prems by (cases "bytes_needed st - bytes_seen st - 1") (auto simp: utf8_pending_def st'_def)
      define X where "X = code_point st * 64 + (lower_boundary st - 0x80)"
      define Y where "Y = code_point st * 64 + (upper_boundary st - 0x80) + 1"
      from Cons.prems have old0:
        "0x80 \<le> X * 64 ^ (bytes_needed st - bytes_seen st - 1)"
        "Y * 64 ^ (bytes_needed st - bytes_seen st - 1) \<le> 0x110000"
        unfolding utf8_pending_def X_def Y_def by blast+
      note old = old0[unfolded r]
      have lo: "X * 64 \<le> code_point st' * 64"
        using rng by (simp add: st'_def X_def)
      have hi: "code_point st' * 64 + 64 \<le> Y * 64"
        using rng by (simp add: st'_def Y_def)
      have "X * 64 ^ Suc r = (X * 64) * 64 ^ r" "Y * 64 ^ Suc r = (Y * 64) * 64 ^ r"
        by simp_all
      with old mult_le_mono1[OF lo, of "64 ^ r"] mult_le_mono1[OF hi, of "64 ^ r"]
      have new: "0x80 \<le> (code_point st' * 64) * 64 ^ r" "(code_point st' * 64 + 64) * 64 ^ r \<le> 0x110000"
        by linarith+
      have e: "bytes_needed st' - bytes_seen st' - 1 = r"
        using r by (simp add: st'_def)
      have sel: "lower_boundary st' = 0x80" "upper_boundary st' = 0xBF" "bytes_seen st' < bytes_needed st'"
        using True Cons.prems by (simp_all add: st'_def utf8_pending_def)
      have "utf8_pending st'"
        unfolding utf8_pending_def e sel using new sel by (simp add: add.commute)
      from Cons.IH[OF this] obtain c cs where "utf8_decode st' bs = c # cs \<and> 0x80 \<le> c \<and> c < 0x110000" by blast
      with needed False True show ?thesis by (simp add: Let_def st'_def)
    next
      case F2: False
      from F2 have "bytes_needed st - bytes_seen st - 1 = 0" by (simp add: st'_def)
      with Cons.prems rng have "0x80 \<le> code_point st' \<and> code_point st' < 0x110000"
        by (simp add: utf8_pending_def st'_def) linarith
      with needed False F2 show ?thesis by (simp add: Let_def st'_def)
    qed
  qed
qed


lemma of_nat_not_brace: "n < 65536 \<Longrightarrow> n \<noteq> 123 \<Longrightarrow> (of_nat n :: code_unit) \<noteq> 0x7B"
proof
  assume a: "n < 65536" "n \<noteq> 123" and eq: "(of_nat n :: code_unit) = 0x7B"
  from eq have "unat (of_nat n :: code_unit) = unat (0x7B :: code_unit)" by simp
  with a show False by (simp add: unat_of_nat)
qed

lemma utf16_units_first:
  assumes "0x80 \<le> c" "c < 0x110000"
  shows "\<exists>u us. utf16_units c = u # us \<and> u \<noteq> 0x7B"
proof (cases "c < 0x10000")
  case True
  with assms show ?thesis by (simp add: utf16_units_def of_nat_not_brace)
next
  case False
  with assms have "(c - 0x10000) div 0x400 < 0x400" by simp
  then have "0xD800 + (c - 0x10000) div 0x400 < 65536" "0xD800 + (c - 0x10000) div 0x400 \<noteq> 123"
    by linarith+
  then have "(of_nat (0xD800 + (c - 0x10000) div 0x400) :: code_unit) \<noteq> 0x7B"
    by (rule of_nat_not_brace)
  with False show ?thesis by (simp add: utf16_units_def)
qed

lemma utf16_units_ascii: "n \<le> 0x7F \<Longrightarrow> utf16_units n = [of_nat n]"
  by (simp add: utf16_units_def)

lemma pending_two:
  fixes n :: nat
  assumes "0xC2 \<le> n" "n \<le> 0xDF"
  shows "utf8_pending (utf8_initial\<lparr>bytes_needed := 1, code_point := n mod 32\<rparr>)"
proof -
  from assms have m: "n mod 32 = n - 192" using mod_window[of 32 6 n] by simp
  show ?thesis unfolding m using assms
    by (simp add: utf8_pending_def utf8_initial_def; intro conjI impI; linarith)
qed

lemma pending_three:
  fixes n :: nat
  assumes "0xE0 \<le> n" "n \<le> 0xEF"
  shows "utf8_pending (utf8_initial\<lparr>lower_boundary := (if n = 0xE0 then 0xA0 else 0x80),
                                     upper_boundary := (if n = 0xED then 0x9F else 0xBF),
                                     bytes_needed := 2, code_point := n mod 16\<rparr>)"
proof -
  from assms have m: "n mod 16 = n - 224" using mod_window[of 16 14 n] by simp
  show ?thesis unfolding m using assms
    by (simp add: utf8_pending_def utf8_initial_def; intro conjI impI; linarith)
qed

lemma pending_four:
  fixes n :: nat
  assumes "0xF0 \<le> n" "n \<le> 0xF4"
  shows "utf8_pending (utf8_initial\<lparr>lower_boundary := (if n = 0xF0 then 0x90 else 0x80),
                                     upper_boundary := (if n = 0xF4 then 0x8F else 0xBF),
                                     bytes_needed := 3, code_point := n mod 8\<rparr>)"
proof -
  from assms have m: "n mod 8 = n - 240" using mod_window[of 8 30 n] by simp
  show ?thesis unfolding m using assms
    by (simp add: utf8_pending_def utf8_initial_def; intro conjI impI; linarith)
qed

lemma decode_lead:
  "\<exists>c cs. utf8_decode utf8_initial (b # bs) = c # cs \<and>
     (if unat b \<le> 0x7F then c = unat b else 0x80 \<le> c \<and> c < 0x110000)"
proof -
  let ?n = "unat b"
  have init: "bytes_needed utf8_initial = 0" by (simp add: utf8_initial_def)
  show ?thesis
  proof (cases "?n \<le> 0x7F")
    case True
    then show ?thesis by (simp add: init)
  next
    case ascii: False
    show ?thesis
    proof (cases "0xC2 \<le> ?n \<and> ?n \<le> 0xDF")
      case True
      then have two: "0xC2 \<le> ?n" "?n \<le> 0xDF" by simp_all
      from pending_first[OF pending_two[OF two], of bs] ascii True
      show ?thesis by (simp add: init Let_def)
    next
      case two: False
      show ?thesis
      proof (cases "0xE0 \<le> ?n \<and> ?n \<le> 0xEF")
        case True
        then have three: "0xE0 \<le> ?n" "?n \<le> 0xEF" by simp_all
        from pending_first[OF pending_three[OF three], of bs] ascii two True
        show ?thesis by (simp add: init Let_def)
      next
        case three: False
        show ?thesis
        proof (cases "0xF0 \<le> ?n \<and> ?n \<le> 0xF4")
          case True
          then have four: "0xF0 \<le> ?n" "?n \<le> 0xF4" by simp_all
          from pending_first[OF pending_four[OF four], of bs] ascii two three True
          show ?thesis by (simp add: init Let_def)
        next
          case False
          with ascii two three show ?thesis by (auto simp: init Let_def)
        qed
      qed
    qed
  qed
qed

lemma byte_unit_brace: "(of_nat (unat b) :: code_unit) = 0x7B \<longleftrightarrow> (b::byte) = 0x7B"
proof
  assume eq: "(of_nat (unat b) :: code_unit) = 0x7B"
  have "unat b < 2 ^ LENGTH(8)" by (rule unsigned_less)
  then have "unat b mod 2 ^ LENGTH(16) = unat b" by simp
  then have "unat (of_nat (unat b) :: code_unit) = unat b" by (simp only: unat_of_nat)
  with eq have "unat b = unat (0x7B :: byte)" by simp
  then show "b = 0x7B" by (simp only: word_unat_eq_iff)
next
  assume "b = 0x7B"
  then show "(of_nat (unat b) :: code_unit) = 0x7B" by simp
qed

lemma toString_startsWith_brace:
  "startsWith (toString data) (str ''{'') \<longleftrightarrow> take 1 data = [0x7B]"
proof (cases data)
  case Nil
  then show ?thesis by (simp add: startsWith_def toString_def str_def utf8_initial_def)
next
  case (Cons b bs)
  from decode_lead[of b bs] obtain c cs where
    dec: "utf8_decode utf8_initial (b # bs) = c # cs" and
    c: "if unat b \<le> 0x7F then c = unat b else 0x80 \<le> c \<and> c < 0x110000"
    by blast
  show ?thesis
  proof (cases "unat b \<le> 0x7F")
    case True
    with c have "utf16_units c = [of_nat (unat b)]" by (simp add: utf16_units_ascii)
    then have "startsWith (toString data) (str ''{'') \<longleftrightarrow> (of_nat (unat b) :: code_unit) = 0x7B"
      using Cons dec by (simp add: startsWith_def toString_def str_def)
    also have "\<dots> \<longleftrightarrow> b = 0x7B" by (rule byte_unit_brace)
    finally show ?thesis using Cons by simp
  next
    case False
    with c utf16_units_first[of c] obtain u us where u: "utf16_units c = u # us" "u \<noteq> 0x7B"
      by auto
    then have "\<not> startsWith (toString data) (str ''{'')"
      using Cons dec by (simp add: startsWith_def toString_def str_def)
    moreover from False have "b \<noteq> 0x7B" by auto
    ultimately show ?thesis using Cons by simp
  qed
qed

section \<open>Properties of the key pattern\<close>

text \<open>
  A match of \<open>[...]+\<close> that starts at \<open>i\<close> ends at any \<open>j > i\<close> such that all code units
  from \<open>i\<close> up to \<open>j\<close> are in the class; the pattern between \<open>^\<close> and \<open>$\<close> therefore
  accepts the non-empty strings over the class.
\<close>

lemma ends_class_iff:
  "j \<in> set (ends (CharClass rs) s i) \<longleftrightarrow> j = Suc i \<and> i < length s \<and> in_class rs (s ! i)"
  by auto

lemma plus_iter_class:
  "j \<in> set (plus_iter (ends (CharClass rs) s) n i) \<longleftrightarrow>
     i < j \<and> j \<le> i + Suc n \<and> j \<le> length s \<and> (\<forall>k. i \<le> k \<and> k < j \<longrightarrow> in_class rs (s ! k))"
proof (induction n arbitrary: i)
  case 0
  have "j \<in> set (plus_iter (ends (CharClass rs) s) 0 i) \<longleftrightarrow>
        j = Suc i \<and> i < length s \<and> in_class rs (s ! i)"
    by (simp only: plus_iter.simps ends_class_iff)
  also have "\<dots> \<longleftrightarrow> i < j \<and> j \<le> i + Suc 0 \<and> j \<le> length s \<and>
      (\<forall>k. i \<le> k \<and> k < j \<longrightarrow> in_class rs (s ! k))"
  proof (intro iffI; elim conjE)
    assume a: "j = Suc i" "i < length s" "in_class rs (s ! i)"
    have "\<forall>k. i \<le> k \<and> k < Suc i \<longrightarrow> in_class rs (s ! k)"
    proof (intro allI impI)
      fix k assume "i \<le> k \<and> k < Suc i"
      then have "k = i" by simp
      with a show "in_class rs (s ! k)" by simp
    qed
    with a show "i < j \<and> j \<le> i + Suc 0 \<and> j \<le> length s \<and>
      (\<forall>k. i \<le> k \<and> k < j \<longrightarrow> in_class rs (s ! k))"
      by simp
  next
    assume a: "i < j" "j \<le> i + Suc 0" "j \<le> length s"
      "\<forall>k. i \<le> k \<and> k < j \<longrightarrow> in_class rs (s ! k)"
    then have "j = Suc i" by simp
    with a show "j = Suc i \<and> i < length s \<and> in_class rs (s ! i)" by simp
  qed
  finally show ?case .
next
  case (Suc n)
  have "j \<in> set (plus_iter (ends (CharClass rs) s) (Suc n) i) \<longleftrightarrow>
        i < length s \<and> in_class rs (s ! i) \<and> (j = Suc i \<or> j \<in> set (plus_iter (ends (CharClass rs) s) n (Suc i)))"
    by (cases "i < length s \<and> in_class rs (s ! i)") auto
  also have "\<dots> \<longleftrightarrow> i < length s \<and> in_class rs (s ! i) \<and>
      (j = Suc i \<or> (Suc i < j \<and> j \<le> Suc i + Suc n \<and> j \<le> length s \<and>
         (\<forall>k. Suc i \<le> k \<and> k < j \<longrightarrow> in_class rs (s ! k))))"
    by (simp only: Suc.IH)
  also have "\<dots> \<longleftrightarrow> i < j \<and> j \<le> i + Suc (Suc n) \<and> j \<le> length s \<and>
      (\<forall>k. i \<le> k \<and> k < j \<longrightarrow> in_class rs (s ! k))"
  proof (intro iffI; elim conjE)
    assume a: "i < length s" "in_class rs (s ! i)"
      and b: "j = Suc i \<or> (Suc i < j \<and> j \<le> Suc i + Suc n \<and> j \<le> length s \<and>
         (\<forall>k. Suc i \<le> k \<and> k < j \<longrightarrow> in_class rs (s ! k)))"
    have "\<forall>k. i \<le> k \<and> k < j \<longrightarrow> in_class rs (s ! k)"
    proof (intro allI impI)
      fix k assume k: "i \<le> k \<and> k < j"
      show "in_class rs (s ! k)"
      proof (cases "k = i")
        case True
        with a show ?thesis by simp
      next
        case False
        with k have "Suc i \<le> k \<and> k < j" "j \<noteq> Suc i" by simp_all
        with b show ?thesis by blast
      qed
    qed
    moreover from a b have "i < j \<and> j \<le> i + Suc (Suc n) \<and> j \<le> length s"
      by (elim disjE) simp_all
    ultimately show "i < j \<and> j \<le> i + Suc (Suc n) \<and> j \<le> length s \<and>
      (\<forall>k. i \<le> k \<and> k < j \<longrightarrow> in_class rs (s ! k))"
      by blast
  next
    assume a: "i < j" "j \<le> i + Suc (Suc n)" "j \<le> length s"
      "\<forall>k. i \<le> k \<and> k < j \<longrightarrow> in_class rs (s ! k)"
    then have "i < length s" "in_class rs (s ! i)" by simp_all
    moreover from a have "j = Suc i \<or> Suc i < j" by linarith
    moreover from a have "j \<le> Suc i + Suc n" by simp
    moreover from a have "\<forall>k. Suc i \<le> k \<and> k < j \<longrightarrow> in_class rs (s ! k)" by simp
    ultimately show "i < length s \<and> in_class rs (s ! i) \<and>
      (j = Suc i \<or> (Suc i < j \<and> j \<le> Suc i + Suc n \<and> j \<le> length s \<and>
         (\<forall>k. Suc i \<le> k \<and> k < j \<longrightarrow> in_class rs (s ! k))))"
      using a(3) by blast
  qed
  finally show ?case .
qed

lemma test_key_regex:
  "test key_regex key \<longleftrightarrow> key \<noteq> [] \<and> (\<forall>c \<in> set key. in_class key_class c)"
proof -
  have "test key_regex key \<longleftrightarrow> ends key_regex key 0 \<noteq> []"
    by (auto simp: test_def key_regex_def list_ex_iff)
  also have "\<dots> \<longleftrightarrow> length key \<in> set (plus_iter (ends (CharClass key_class) key) (length key) 0)"
    by (auto simp: key_regex_def simp del: ends.simps(3))
  also have "\<dots> \<longleftrightarrow> 0 < length key \<and> (\<forall>k < length key. in_class key_class (key ! k))"
    by (simp add: plus_iter_class)
  also have "\<dots> \<longleftrightarrow> key \<noteq> [] \<and> (\<forall>c \<in> set key. in_class key_class c)"
    by (auto simp: all_set_conv_all_nth)
  finally show ?thesis .
qed

lemma in_key_class:
  "in_class key_class c \<longleftrightarrow>
     is_letter c \<or> is_digit c \<or> c = of_char CHR '' '' \<or> c = of_char CHR ''_'' \<or> c = of_char CHR ''-''"
  by (auto simp: in_class_def key_class_def is_letter_def is_digit_def)

lemma startsWith_single: "startsWith key [c] \<longleftrightarrow> key \<noteq> [] \<and> hd key = c"
  by (cases key) (auto simp: startsWith_def)

lemma endsWith_single: "endsWith key [c] \<longleftrightarrow> key \<noteq> [] \<and> last key = c"
proof (cases key rule: rev_cases)
  case Nil
  then show ?thesis by (simp add: endsWith_def)
next
  case (snoc ys y)
  then show ?thesis by (auto simp: endsWith_def)
qed

lemma str_space: "str '' '' = [of_char CHR '' '']"
  by (simp add: str_def)


section \<open>The example files\<close>

lemma example_key_files:
  "readFileSync_utf8 (example_state obj) (str ''pub.pem'') = Inr (str ''PUBLIC KEY'')"
  "readFileSync_utf8 (example_state obj) (str ''priv.pem'') = Inr (str ''PRIVATE KEY'')"
  "readFileSync_utf8 (example_state obj) (str ''other.pem'') = Inr (str ''OTHER KEY'')"
  by (simp_all add: readFileSync_utf8_def readFileSync_def example_state_def example_files_def str_def
        toString_def Buffer_from_def utf8_bytes_def utf8_initial_def utf16_units_def)

lemma example_store_files:
  "readFileSync (example_state obj) (str ''store.enc'') = Inr [0, 0x7D, 0x31, 0x3A, 0x61, 0x7B]"
  "readFileSync (example_state obj) (str ''garbled.enc'') = Inr [0, 0x7D, 0x31, 0x3A, 0x61]"
  by (simp_all add: readFileSync_def example_state_def example_files_def str_def
        Buffer_from_def utf8_bytes_def)

section \<open>Key validation (C7)\<close>

text \<open>
  C7. For every string \<open>key\<close>, \<open>isValidKey\<close> returns true if and only if the key is non-empty,
  contains only letters, digits, space, underscore and hyphen, and has neither a leading nor a
  trailing space. In particular \<open>my_key-1\<close> is valid, and \<open> leading\<close>, \<open>trailing \<close>, the
  empty string and \<open>bad!key\<close> are invalid.
\<close>

theorem isValidKey_key_rule:
  "(isValidKey key \<longleftrightarrow> key_rule key) \<and>
   isValidKey (str ''my_key-1'') \<and> \<not> isValidKey (str '' leading'') \<and>
   \<not> isValidKey (str ''trailing '') \<and> \<not> isValidKey (str []) \<and> \<not> isValidKey (str ''bad!key'')"
proof -
  have "isValidKey key \<longleftrightarrow> key_rule key"
    unfolding isValidKey_def key_rule_def test_key_regex str_space startsWith_single endsWith_single
    by (auto simp: in_key_class)
  moreover have "isValidKey (str ''my_key-1'')" by code_simp
  moreover have "\<not> isValidKey (str '' leading'')" by code_simp
  moreover have "\<not> isValidKey (str ''trailing '')" by code_simp
  moreover have "\<not> isValidKey (str [])" by code_simp
  moreover have "\<not> isValidKey (str ''bad!key'')" by code_simp
  ultimately show ?thesis by blast
qed

theorem isValidKey_key_rule_witness:
  "key_rule (str ''a b'') \<and> isValidKey (str ''a b'') \<and>
   \<not> key_rule (str ''a b '') \<and> \<not> isValidKey (str ''a b '')"
proof -
  have a: "key_rule (str ''a b'')"
    by (simp add: key_rule_def str_def is_letter_def is_digit_def)
  have b: "\<not> key_rule (str ''a b '')"
    by (simp add: key_rule_def str_def is_letter_def is_digit_def)
  from a b isValidKey_key_rule[of "str ''a b''"] isValidKey_key_rule[of "str ''a b ''"]
  show ?thesis by blast
qed

section \<open>Format detection (C8, C10)\<close>

text \<open>
  C8. For every content of the store file, \<open>isEncrypted\<close> answers false (plaintext) exactly
  when the first byte is an opening brace, and true (encrypted) for any other first byte and
  for no byte at all. The answer depends on the content only: any file, in any state, with the
  same content gets the same answer.
\<close>

theorem isEncrypted_first_byte:
  "readFileSync s filePath = Inr data \<Longrightarrow>
     isEncrypted s filePath = Inr (case data of [] \<Rightarrow> True | b # rest \<Rightarrow> b \<noteq> of_char CHR ''{'') \<and>
     (readFileSync s' filePath' = Inr data \<longrightarrow> isEncrypted s' filePath' = isEncrypted s filePath)"
  by (auto simp: isEncrypted_def toString_startsWith_brace split: list.splits)

theorem isEncrypted_first_byte_witness:
  "isEncrypted (example_state Map.empty) (str ''plain.json'') = Inr False \<and>
   isEncrypted (example_state Map.empty) (str ''garbled.enc'') = Inr True"
proof -
  have a: "readFileSync (example_state Map.empty) (str ''plain.json'') = Inr (Buffer_from (str ''{a:1}''))"
    by (simp add: readFileSync_def example_state_def example_files_def str_def)
  have b: "readFileSync (example_state Map.empty) (str ''garbled.enc'') = Inr (0 # Buffer_from (str ''}1:a''))"
    by (simp add: readFileSync_def example_state_def example_files_def str_def)
  have c: "Buffer_from (str ''{a:1}'') = [0x7B, 0x61, 0x3A, 0x31, 0x7D]"
    "Buffer_from (str ''}1:a'') = [0x7D, 0x31, 0x3A, 0x61]"
    by (simp_all add: Buffer_from_def str_def utf8_bytes_def)
  from isEncrypted_first_byte[OF a] isEncrypted_first_byte[OF b] show ?thesis
    unfolding c by simp
qed

text \<open>
  C10. A store file of zero bytes is classified as encrypted, so that loading it asks for the
  private key and calls \<open>decryptStore\<close>; the plaintext branch is not taken.
\<close>

theorem empty_file_is_encrypted:
  "files s STORE_FILE = Some (Inr []) \<Longrightarrow>
     isEncrypted s STORE_FILE = Inr True \<and>
     load_store env STORE_FILE [] s = Halt InputClosed s \<and>
     load_store env STORE_FILE (privateKeyPath # inputs) s =
       (case decryptStore env STORE_FILE privateKeyPath s of
          Halt h s' \<Rightarrow> Halt h s'
        | Next obj s' \<Rightarrow> Next inputs (console_log (str ''Store successfully decrypted.'') (s'\<lparr>store := obj\<rparr>)))"
  by (simp add: load_store_def existsSync_def isEncrypted_def readFileSync_def toString_def
       startsWith_def str_def utf8_initial_def)

theorem empty_file_is_encrypted_witness:
  "isEncrypted (example_state Map.empty) (str ''empty.enc'') = Inr True \<and>
   load_store example_env (str ''empty.enc'') [str ''priv.pem''] (example_state Map.empty) =
     Halt (Exit 3)
       (console_error (str ''Error details: error:02000079:rsa routines::oaep decoding error'')
         (console_error (str ''Decryption failed.'') (example_state Map.empty)))"
proof -
  have f: "files (example_state Map.empty) (str ''empty.enc'') = Some (Inr [])"
    by (simp add: example_state_def example_files_def str_def)
  have r: "readFileSync (example_state Map.empty) (str ''empty.enc'') = Inr []"
    by (simp add: readFileSync_def f)
  note k = example_key_files(2)[of Map.empty]
  have d: "decryptStore example_env (str ''empty.enc'') (str ''priv.pem'') (example_state Map.empty) =
     Halt (Exit 3)
       (console_error (str ''Error details: error:02000079:rsa routines::oaep decoding error'')
         (console_error (str ''Decryption failed.'') (example_state Map.empty)))"
    unfolding decryptStore_def k r by (simp add: example_env_def decryptStore_catch_def str_def)
  from empty_file_is_encrypted[OF f, of example_env "str ''priv.pem''" "[]"] show ?thesis
    unfolding d by simp
qed


section \<open>Presence of a key (C5, C6, C9)\<close>




text \<open>The definitions that the evaluation of a concrete session unfolds.\<close>

lemmas session_simps =
  example_state_def console_log_def Let_def trim_def js_whitespace_def str_def
  isValidKey_def test_def key_regex_def key_class_def in_class_def startsWith_def endsWith_def
  set_key_def delete_key_def get_property_def set_property_def delete_property_def
  Object_prototype_def

text \<open>
  C5 says that setting a key warns if and only if the key is already in the store, and that
  the value is stored under every valid key. The sessions below run the menu from the empty
  store. In the first, \<open>a\<close> is set to the empty string and then to \<open>2\<close>: the second
  assignment overwrites an existing key, and no warning is printed. In the second, the valid
  key \<open>constructor\<close> is set in the empty store, and the warning is printed. In the third, the
  valid key \<open>__proto__\<close> is set: the warning is printed and nothing is stored.
\<close>

theorem set_warns_by_truthiness:
  "menu_loop example_env (str ''store.enc'')
     [str ''1'', str ''a'', [], str ''1'', str ''a'', str ''2'', str ''5''] (example_state Map.empty) =
   (Exit 0,
    \<lparr>store = [str ''a'' \<mapsto> str ''2''], files = example_files,
     console = [Log menu_text, Log (str ''Added/Updated a: ''), Log menu_text,
                Log (str ''Added/Updated a: 2''), Log menu_text,
                Log (str ''Exiting without encryption'')]\<rparr>) \<and>
   menu_loop example_env (str ''store.enc'')
     [str ''1'', str ''constructor'', str ''x'', str ''5''] (example_state Map.empty) =
   (Exit 0,
    \<lparr>store = [str ''constructor'' \<mapsto> str ''x''], files = example_files,
     console = [Log menu_text, overwrite_warning (str ''constructor''),
                Log (str ''Added/Updated constructor: x''), Log menu_text,
                Log (str ''Exiting without encryption'')]\<rparr>) \<and>
   isValidKey (str ''__proto__'') \<and>
   menu_loop example_env (str ''store.enc'')
     [str ''1'', str ''__proto__'', str ''x'', str ''5''] (example_state Map.empty) =
   (Exit 0,
    \<lparr>store = Map.empty, files = example_files,
     console = [Log menu_text, overwrite_warning (str ''__proto__''),
                Log (str ''Added/Updated __proto__: x''), Log menu_text,
                Log (str ''Exiting without encryption'')]\<rparr>)"
  by (simp add: session_simps overwrite_warning_def)

text \<open>The example of the specification: \<open>a\<close> set to \<open>1\<close> and then to \<open>2\<close>, one warning.\<close>

lemma set_twice_example:
  "menu_loop example_env (str ''store.enc'')
     [str ''1'', str ''a'', str ''1'', str ''1'', str ''a'', str ''2'', str ''5''] (example_state Map.empty) =
   (Exit 0,
    \<lparr>store = [str ''a'' \<mapsto> str ''2''], files = example_files,
     console = [Log menu_text, Log (str ''Added/Updated a: 1''), Log menu_text,
                overwrite_warning (str ''a''), Log (str ''Added/Updated a: 2''), Log menu_text,
                Log (str ''Exiting without encryption'')]\<rparr>)"
  by (simp add: session_simps overwrite_warning_def)

text \<open>
  C6 says that deleting a key removes its entry when the key is in the store and reports that
  it was not found, leaving the store unchanged, when it is not. In the first session \<open>a\<close> is
  set to the empty string and then deleted: the entry stays and \<open>Key not found.\<close> is printed.
  In the second the absent key \<open>constructor\<close> is deleted from the empty store: the deletion is
  reported as done.
\<close>

theorem delete_decides_by_truthiness:
  "menu_loop example_env (str ''store.enc'')
     [str ''1'', str ''a'', [], str ''2'', str ''a'', str ''5''] (example_state Map.empty) =
   (Exit 0,
    \<lparr>store = [str ''a'' \<mapsto> []], files = example_files,
     console = [Log menu_text, Log (str ''Added/Updated a: ''), Log menu_text,
                Log (str ''Key not found.''), Log menu_text,
                Log (str ''Exiting without encryption'')]\<rparr>) \<and>
   menu_loop example_env (str ''store.enc'')
     [str ''2'', str ''constructor'', str ''5''] (example_state Map.empty) =
   (Exit 0,
    \<lparr>store = Map.empty, files = example_files,
     console = [Log menu_text, Log (str ''Deleted key: constructor''), Log menu_text,
                Log (str ''Exiting without encryption'')]\<rparr>)"
  by (simp add: session_simps)


section \<open>Loading an encrypted store (C3)\<close>

lemma readFileSync_exists: "readFileSync s path = Inr data \<Longrightarrow> existsSync s path"
  by (auto simp: readFileSync_def existsSync_def split: option.splits)

lemma isEncrypted_bytes:
  "readFileSync s path = Inr data \<Longrightarrow> isEncrypted s path = Inr (take 1 data \<noteq> [0x7B])"
  by (simp add: isEncrypted_def toString_startsWith_brace)

text \<open>
  C3. While an existing encrypted store file is loaded, an error thrown by
  \<open>crypto.privateDecrypt\<close> (wrong private key, corrupted data, wrong padding; an error of
  Node's crypto is never a \<open>SyntaxError\<close>) ends the process with exit code 3, and a
  decryption that succeeds with a plaintext that \<open>JSON.parse\<close> rejects ends it with exit
  code 2. So a wrong private key against a valid ciphertext gives 3, not 2.
\<close>

theorem load_exit_codes:
  assumes "readFileSync s STORE_FILE = Inr data" and "take 1 data \<noteq> [0x7B]"
    and "readFileSync_utf8 s privateKeyPath = Inr privateKey"
  shows "(\<forall>e. privateDecrypt env privateKey data = Inl e \<and> err_class e \<noteq> SyntaxError \<longrightarrow>
            load_store env STORE_FILE (privateKeyPath # inputs) s =
              Halt (Exit 3)
                (console_error (str ''Error details: '' @ message e)
                  (console_error (str ''Decryption failed.'') s))) \<and>
         (\<forall>plaintext m. privateDecrypt env privateKey data = Inr plaintext \<and>
              JSON_parse env (toString plaintext) = Inl m \<longrightarrow>
            load_store env STORE_FILE (privateKeyPath # inputs) s =
              Halt (Exit 2) (console_error (str ''Invalid store file.'') s))"
  using assms readFileSync_exists[OF assms(1)] isEncrypted_bytes[OF assms(1)]
  by (simp add: load_store_def decryptStore_def decryptStore_catch_def)

theorem load_exit_codes_witness:
  "load_store example_env (str ''store.enc'') [str ''other.pem''] (example_state Map.empty) =
     Halt (Exit 3)
       (console_error (str ''Error details: error:02000079:rsa routines::oaep decoding error'')
         (console_error (str ''Decryption failed.'') (example_state Map.empty))) \<and>
   load_store example_env (str ''garbled.enc'') [str ''priv.pem''] (example_state Map.empty) =
     Halt (Exit 2) (console_error (str ''Invalid store file.'') (example_state Map.empty))"
proof -
  have wrong_key:
    "privateDecrypt example_env (str ''OTHER KEY'') [0, 0x7D, 0x31, 0x3A, 0x61, 0x7B] =
       Inl \<lparr>err_class = Error, message = str ''error:02000079:rsa routines::oaep decoding error''\<rparr>"
    by (simp add: example_env_def str_def)
  have garbled:
    "privateDecrypt example_env (str ''PRIVATE KEY'') [0, 0x7D, 0x31, 0x3A, 0x61] = Inr [0x61, 0x3A, 0x31, 0x7D]"
    "JSON_parse example_env (toString [0x61, 0x3A, 0x31, 0x7D]) = Inl (str ''Unexpected token'')"
    by (simp_all add: example_env_def str_def toString_def utf8_initial_def utf16_units_def)
  have a: "take 1 [0, 0x7D, 0x31, 0x3A, 0x61, 0x7B] \<noteq> [0x7B :: byte]"
    and b: "take 1 [0, 0x7D, 0x31, 0x3A, 0x61] \<noteq> [0x7B :: byte]"
    by simp_all
  from load_exit_codes[OF example_store_files(1) a example_key_files(3), of example_env "[]"] wrong_key
    load_exit_codes[OF example_store_files(2) b example_key_files(2), of example_env "[]"] garbled
  show ?thesis by (simp add: str_def)
qed


section \<open>Saving (C2, C4)\<close>

lemma console_log_frame [simp]:
  "store (console_log msg s) = store s" "files (console_log msg s) = files s"
  "readFileSync_utf8 (console_log msg s) path = readFileSync_utf8 s path"
  by (simp_all add: console_log_def readFileSync_utf8_def readFileSync_def)

lemma encryptStore_catch_frame [simp]:
  "store (encryptStore_catch e s) = store s" "files (encryptStore_catch e s) = files s"
  by (simp_all add: encryptStore_catch_def console_error_def)

lemma menu_loop_continues:
  "menu env STORE_FILE inputs s = Next inputs' s' \<Longrightarrow>
     menu_loop env STORE_FILE inputs s = menu_loop env STORE_FILE inputs' s'"
  by (subst menu_loop.simps) simp

lemma menu_option_4:
  "trim choice = str ''4'' \<Longrightarrow>
     menu env STORE_FILE (choice # inputs) s = encryptStore env STORE_FILE inputs (console_log menu_text s)"
  by (simp add: str_def Let_def)

text \<open>
  C4. Whenever the encrypt-and-save operation fails, because the public key file cannot be
  read or because \<open>crypto.publicEncrypt\<close> throws (a key that does not parse, or any other
  cryptographic failure), \<open>encryptStore\<close> returns: the store in memory and the files on disk
  are as before, one of the two error reports has been written to the console, and the menu
  loop goes on with the next answer.
\<close>

theorem save_failure_is_recoverable:
  assumes "readFileSync_utf8 s publicKeyPath = Inl e \<or>
           (\<exists>publicKey. readFileSync_utf8 s publicKeyPath = Inr publicKey \<and>
              publicEncrypt env publicKey (Buffer_from (JSON_stringify env (store s) 0)) = Inl e)"
  shows "encryptStore env STORE_FILE (publicKeyPath # inputs) s = Next inputs (encryptStore_catch e s) \<and>
         store (encryptStore_catch e s) = store s \<and>
         files (encryptStore_catch e s) = files s \<and>
         (console (encryptStore_catch e s) = console s @ [Err (str ''Invalid public key file.'')] \<or>
          console (encryptStore_catch e s) =
            console s @ [Err (str ''Encryption failed.''), Err (str ''Error details: '' @ message e)]) \<and>
         (trim choice = str ''4'' \<longrightarrow>
            menu_loop env STORE_FILE (choice # publicKeyPath # inputs) s =
              menu_loop env STORE_FILE inputs (encryptStore_catch e (console_log menu_text s)))"
proof -
  from assms have enc: "encryptStore env STORE_FILE (publicKeyPath # inputs) s' =
      Next inputs (encryptStore_catch e s')"
    if "store s' = store s" "readFileSync_utf8 s' publicKeyPath = readFileSync_utf8 s publicKeyPath" for s'
    using that by auto
  have "encryptStore env STORE_FILE (publicKeyPath # inputs) s = Next inputs (encryptStore_catch e s)"
    by (rule enc) simp_all
  moreover have "console (encryptStore_catch e s) = console s @ [Err (str ''Invalid public key file.'')] \<or>
      console (encryptStore_catch e s) =
        console s @ [Err (str ''Encryption failed.''), Err (str ''Error details: '' @ message e)]"
    by (simp add: encryptStore_catch_def console_error_def)
  moreover have "menu_loop env STORE_FILE (choice # publicKeyPath # inputs) s =
      menu_loop env STORE_FILE inputs (encryptStore_catch e (console_log menu_text s))"
    if "trim choice = str ''4''"
  proof (rule menu_loop_continues)
    show "menu env STORE_FILE (choice # publicKeyPath # inputs) s =
        Next inputs (encryptStore_catch e (console_log menu_text s))"
      unfolding menu_option_4[OF that] by (rule enc) simp_all
  qed
  ultimately show ?thesis by simp
qed

theorem save_failure_is_recoverable_witness:
  "encryptStore example_env (str ''store.enc'') [str ''missing.pem'', str ''5''] (example_state empty_value_store) =
     Next [str ''5'']
       \<lparr>store = empty_value_store, files = example_files,
        console = [Err (str ''Encryption failed.''),
                   Err (str ''Error details: '' @ message (ENOENT (str ''missing.pem'')))]\<rparr> \<and>
   menu_loop example_env (str ''store.enc'') [str ''4'', str ''other.pem'', str ''5''] (example_state empty_value_store) =
     (Exit 0,
      \<lparr>store = empty_value_store, files = example_files,
       console = [Log menu_text, Err (str ''Encryption failed.''),
                  Err (str ''Error details: error:1E08010C:DECODER routines::unsupported''),
                  Log menu_text, Log (str ''Exiting without encryption'')]\<rparr>)"
proof -
  have missing: "readFileSync_utf8 (example_state empty_value_store) (str ''missing.pem'') =
      Inl (ENOENT (str ''missing.pem''))"
    by (simp add: readFileSync_utf8_def readFileSync_def example_state_def example_files_def str_def)
  have unparsable: "\<exists>publicKey.
      readFileSync_utf8 (example_state empty_value_store) (str ''other.pem'') = Inr publicKey \<and>
      publicEncrypt example_env publicKey
        (Buffer_from (JSON_stringify example_env (store (example_state empty_value_store)) 0)) =
      Inl \<lparr>err_class = Error, message = str ''error:1E08010C:DECODER routines::unsupported''\<rparr>"
    unfolding example_key_files by (simp add: example_env_def str_def)
  have quiet:
    "\<not> includes_str (message (ENOENT (str ''missing.pem''))) (str ''invalid key'')"
    "\<not> includes_str (str ''error:1E08010C:DECODER routines::unsupported'') (str ''invalid key'')"
    by code_simp+
  have four: "trim (str ''4'') = str ''4''"
    by (simp add: trim_def js_whitespace_def str_def)
  have rest: "menu_loop example_env (str ''store.enc'') [str ''5''] s =
      (Exit 0, console_log (str ''Exiting without encryption'') (console_log menu_text s))" for s
    by (simp add: trim_def js_whitespace_def str_def Let_def)
  let ?e = "\<lparr>err_class = Error, message = str ''error:1E08010C:DECODER routines::unsupported''\<rparr>"
  from save_failure_is_recoverable[OF disjI1[OF missing], of example_env "str ''store.enc''" "[str ''5'']"]
  have first: "encryptStore example_env (str ''store.enc'') [str ''missing.pem'', str ''5'']
        (example_state empty_value_store) =
      Next [str ''5''] (encryptStore_catch (ENOENT (str ''missing.pem'')) (example_state empty_value_store))"
    by blast
  from save_failure_is_recoverable[OF disjI2[OF unparsable], of "str ''store.enc''" "[str ''5'']" "str ''4''"]
    four
  have second: "menu_loop example_env (str ''store.enc'') [str ''4'', str ''other.pem'', str ''5'']
        (example_state empty_value_store) =
      menu_loop example_env (str ''store.enc'') [str ''5'']
        (encryptStore_catch ?e (console_log menu_text (example_state empty_value_store)))"
    by blast
  show ?thesis
    unfolding first second rest
    by (simp add: encryptStore_catch_def quiet console_error_def console_log_def example_state_def)
       (simp add: str_def)
qed

text \<open>
  C2. When the serialized store is longer than the capacity of the public key and the runtime
  rejects such a plaintext, \<open>encryptStore\<close> reports \<open>Encryption failed.\<close> with the details of
  the error, which is not the report for an invalid key file; it returns with the store and the
  files untouched (the store file is not written, truncated or otherwise), the process does not
  exit, and the menu loop goes on with the next answer.
\<close>

theorem oversize_store_is_rejected:
  assumes "rejects_oversize env publicKey"
    and "readFileSync_utf8 s publicKeyPath = Inr publicKey"
    and "max_plaintext env publicKey < length (Buffer_from (JSON_stringify env (store s) 0))"
  shows "\<exists>e. publicEncrypt env publicKey (Buffer_from (JSON_stringify env (store s) 0)) = Inl e \<and>
           encryptStore env STORE_FILE (publicKeyPath # inputs) s =
             Next inputs
               (s\<lparr>console := console s @
                    [Err (str ''Encryption failed.''), Err (str ''Error details: '' @ message e)]\<rparr>) \<and>
           (trim choice = str ''4'' \<longrightarrow>
              menu_loop env STORE_FILE (choice # publicKeyPath # inputs) s =
                menu_loop env STORE_FILE inputs
                  (s\<lparr>console := console s @
                       [Log menu_text, Err (str ''Encryption failed.''),
                        Err (str ''Error details: '' @ message e)]\<rparr>))"
proof -
  from assms(1,3) obtain e where
    e: "publicEncrypt env publicKey (Buffer_from (JSON_stringify env (store s) 0)) = Inl e"
      "\<not> includes_str (message e) (str ''invalid key'')"
    unfolding rejects_oversize_def by blast
  have enc: "encryptStore env STORE_FILE (publicKeyPath # inputs) s' =
      Next inputs (s'\<lparr>console := console s' @
        [Err (str ''Encryption failed.''), Err (str ''Error details: '' @ message e)]\<rparr>)"
    if "store s' = store s" "readFileSync_utf8 s' publicKeyPath = readFileSync_utf8 s publicKeyPath" for s'
    using that assms(2) e by (simp add: encryptStore_catch_def console_error_def)
  have "menu_loop env STORE_FILE (choice # publicKeyPath # inputs) s =
      menu_loop env STORE_FILE inputs
        (s\<lparr>console := console s @
           [Log menu_text, Err (str ''Encryption failed.''), Err (str ''Error details: '' @ message e)]\<rparr>)"
    if "trim choice = str ''4''"
  proof (rule menu_loop_continues)
    have "menu env STORE_FILE (choice # publicKeyPath # inputs) s =
        Next inputs ((console_log menu_text s)\<lparr>console := console (console_log menu_text s) @
          [Err (str ''Encryption failed.''), Err (str ''Error details: '' @ message e)]\<rparr>)"
      unfolding menu_option_4[OF that] by (rule enc) simp_all
    then show "menu env STORE_FILE (choice # publicKeyPath # inputs) s =
        Next inputs (s\<lparr>console := console s @
          [Log menu_text, Err (str ''Encryption failed.''), Err (str ''Error details: '' @ message e)]\<rparr>)"
      by (simp add: console_log_def)
  qed
  with e(1) enc[of s] show ?thesis by auto
qed

theorem oversize_store_is_rejected_witness:
  "menu_loop example_env (str ''store.enc'') [str ''4'', str ''pub.pem'', str ''5'']
     (example_state oversize_store) =
   (Exit 0,
    \<lparr>store = oversize_store, files = example_files,
     console = [Log menu_text, Err (str ''Encryption failed.''),
                Err (str ''Error details: error:0200006E:rsa routines::data too large for key size''),
                Log menu_text, Log (str ''Exiting without encryption'')]\<rparr>)"
proof -
  let ?e = "\<lparr>err_class = Error,
             message = str ''error:0200006E:rsa routines::data too large for key size''\<rparr>"
  let ?payload = "Buffer_from (JSON_stringify example_env (store (example_state oversize_store)) 0)"
  have quiet: "\<not> includes_str (str ''error:0200006E:rsa routines::data too large for key size'')
      (str ''invalid key'')"
    by code_simp
  then have rejects: "rejects_oversize example_env (str ''PUBLIC KEY'')"
    by (simp add: rejects_oversize_def example_env_def)
  have payload: "?payload = [0x7B, 0x61, 0x3A, 0x31, 0x32, 0x7D]"
    by (simp add: example_env_def example_state_def oversize_store_def str_def Buffer_from_def utf8_bytes_def)
  have long: "max_plaintext example_env (str ''PUBLIC KEY'') < length ?payload"
    unfolding payload by (simp add: example_env_def)
  have thrown: "publicEncrypt example_env (str ''PUBLIC KEY'') ?payload = Inl ?e"
    unfolding payload by (simp add: example_env_def)
  have four: "trim (str ''4'') = str ''4''"
    by (simp add: trim_def js_whitespace_def str_def)
  have rest: "menu_loop example_env (str ''store.enc'') [str ''5''] s =
      (Exit 0, console_log (str ''Exiting without encryption'') (console_log menu_text s))" for s
    by (simp add: trim_def js_whitespace_def str_def Let_def)
  from oversize_store_is_rejected[OF rejects example_key_files(1) long,
      of "str ''store.enc''" "[str ''5'']" "str ''4''"] four thrown
  have "menu_loop example_env (str ''store.enc'') [str ''4'', str ''pub.pem'', str ''5'']
        (example_state oversize_store) =
      menu_loop example_env (str ''store.enc'') [str ''5'']
        ((example_state oversize_store)\<lparr>console := console (example_state oversize_store) @
           [Log menu_text, Err (str ''Encryption failed.''), Err (str ''Error details: '' @ message ?e)]\<rparr>)"
    by auto
  then show ?thesis
    unfolding rest by (simp add: console_log_def example_state_def) (simp add: str_def)
qed


text \<open>
  A write that fails is caught by the same \<open>catch\<close> block: the error is reported, the store
  in memory is kept, and the menu goes on; the file system is what the failed write left.
\<close>

lemma write_failure_is_reported:
  assumes "readFileSync_utf8 s publicKeyPath = Inr publicKey"
    and "publicEncrypt env publicKey (Buffer_from (JSON_stringify env (store s) 0)) = Inr c"
    and "write_failure env (files s) STORE_FILE c = Some (e, fs')"
  shows "encryptStore env STORE_FILE (publicKeyPath # inputs) s =
           Next inputs (encryptStore_catch e (s\<lparr>files := fs'\<rparr>))"
  using assms by (simp add: writeFileSync_def)

lemma write_failure_example:
  "menu_loop example_env (str ''readonly.enc'') [str ''4'', str ''pub.pem'', str ''5'']
     (example_state Map.empty) =
   (Exit 0,
    \<lparr>store = Map.empty, files = example_files,
     console = [Log menu_text, Err (str ''Encryption failed.''),
                Err (str ''Error details: EACCES: permission denied, open '' @ [0x27] @
                       str ''readonly.enc'' @ [0x27]),
                Log menu_text, Log (str ''Exiting without encryption'')]\<rparr>)"
proof -
  let ?s = "console_log menu_text (example_state Map.empty)"
  let ?e = "\<lparr>err_class = Error,
             message = str ''EACCES: permission denied, open '' @ [0x27] @ str ''readonly.enc'' @ [0x27]\<rparr>"
  have quiet: "\<not> includes_str (message ?e) (str ''invalid key'')"
    by code_simp
  have key: "readFileSync_utf8 ?s (str ''pub.pem'') = Inr (str ''PUBLIC KEY'')"
    by (simp add: example_key_files)
  have enc: "publicEncrypt example_env (str ''PUBLIC KEY'')
      (Buffer_from (JSON_stringify example_env (store ?s) 0)) = Inr [0, 0x7D, 0x7B]"
    by (simp add: example_env_def example_state_def str_def Buffer_from_def utf8_bytes_def)
  have refused: "write_failure example_env (files ?s) (str ''readonly.enc'') [0, 0x7D, 0x7B] =
      Some (?e, files ?s)"
    by (simp add: example_env_def)
  have four: "trim (str ''4'') = str ''4''"
    by (simp add: trim_def js_whitespace_def str_def)
  have rest: "menu_loop example_env (str ''readonly.enc'') [str ''5''] s =
      (Exit 0, console_log (str ''Exiting without encryption'') (console_log menu_text s))" for s
    by (simp add: trim_def js_whitespace_def str_def Let_def)
  have caught: "encryptStore_catch ?e s0 =
      console_error (str ''Error details: '' @ message ?e) (console_error (str ''Encryption failed.'') s0)"
    for s0
    using quiet by (simp only: encryptStore_catch_def if_False)
  have "menu example_env (str ''readonly.enc'') [str ''4'', str ''pub.pem'', str ''5'']
        (example_state Map.empty) =
      Next [str ''5''] (encryptStore_catch ?e (?s\<lparr>files := files ?s\<rparr>))"
    unfolding menu_option_4[OF four] by (rule write_failure_is_reported[OF key enc refused])
  then have turn: "menu_loop example_env (str ''readonly.enc'') [str ''4'', str ''pub.pem'', str ''5'']
        (example_state Map.empty) =
      menu_loop example_env (str ''readonly.enc'') [str ''5'']
        (encryptStore_catch ?e (?s\<lparr>files := files ?s\<rparr>))"
    by (rule menu_loop_continues)
  show ?thesis
    unfolding turn rest caught
    by (simp add: console_error_def console_log_def example_state_def) (simp add: str_def)
qed

section \<open>The round trip (C1)\<close>

text \<open>
  C1. Let the runtime be such that the private key decrypts what the public key encrypted,
  that encryption succeeds within the capacity of the key, that JSON parses back the
  serialized store, and that the store file can be written. Then for every store whose
  serialization fits the capacity, \<open>encryptStore\<close> under the public key writes the ciphertext
  to the store file and exits with code 0, and \<open>decryptStore\<close> under the private key, run in
  any state that has nothing but the files of that moment (the next run of the program, which
  starts with its own store), returns the original store. The private key must not be kept
  in the store file itself, which \<open>encryptStore\<close> overwrites.
\<close>

theorem encrypt_decrypt_roundtrip:
  assumes "key_pair env publicKey privateKey"
    and "accepts_within_capacity env publicKey"
    and "json_roundtrip env (store s)"
    and "length (Buffer_from (JSON_stringify env (store s) 0)) \<le> max_plaintext env publicKey"
    and "writable env (files s) STORE_FILE"
    and "readFileSync_utf8 s publicKeyPath = Inr publicKey"
    and "readFileSync_utf8 s privateKeyPath = Inr privateKey"
    and "privateKeyPath \<noteq> STORE_FILE"
  shows "\<exists>c s'. publicEncrypt env publicKey (Buffer_from (JSON_stringify env (store s) 0)) = Inr c \<and>
           encryptStore env STORE_FILE (publicKeyPath # inputs) s = Halt (Exit 0) s' \<and>
           files s' = (files s)(STORE_FILE \<mapsto> Inr c) \<and>
           (\<forall>s0. files s0 = files s' \<longrightarrow>
              decryptStore env STORE_FILE privateKeyPath s0 = Next (store s) s0)"
proof -
  let ?payload = "Buffer_from (JSON_stringify env (store s) 0)"
  from assms(2,4) obtain c where c: "publicEncrypt env publicKey ?payload = Inr c"
    unfolding accepts_within_capacity_def by blast
  with assms(1) have decrypted: "privateDecrypt env privateKey c = Inr ?payload"
    unfolding key_pair_def by blast
  from assms(3) have parsed: "JSON_parse env (toString ?payload) = Inr (store s)"
    by (simp add: json_roundtrip_def)
  from assms(5) have written: "writeFileSync env STORE_FILE c s = Inr (s\<lparr>files := (files s)(STORE_FILE \<mapsto> Inr c)\<rparr>)"
    by (simp add: writable_def writeFileSync_def)
  define s' where
    "s' = console_log (str ''Store encrypted and saved.'') (s\<lparr>files := (files s)(STORE_FILE \<mapsto> Inr c)\<rparr>)"
  have exit: "encryptStore env STORE_FILE (publicKeyPath # inputs) s = Halt (Exit 0) s'"
    using assms(6) c written by (simp add: s'_def)
  have fs: "files s' = (files s)(STORE_FILE \<mapsto> Inr c)"
    by (simp add: s'_def)
  have "decryptStore env STORE_FILE privateKeyPath s0 = Next (store s) s0" if "files s0 = files s'" for s0
  proof -
    from that fs have "readFileSync s0 STORE_FILE = Inr c"
      by (simp add: readFileSync_def)
    moreover from that fs assms(7,8) have "readFileSync_utf8 s0 privateKeyPath = Inr privateKey"
      by (simp add: readFileSync_utf8_def readFileSync_def)
    ultimately show ?thesis
      using decrypted parsed by (simp add: decryptStore_def)
  qed
  with c exit fs show ?thesis by blast
qed

theorem encrypt_decrypt_roundtrip_witness:
  "(case encryptStore example_env (str ''out.enc'') [str ''pub.pem''] (example_state [str ''a'' \<mapsto> str ''1'']) of
      Halt h s' \<Rightarrow>
        h = Exit 0 \<and> files s' = example_files(str ''out.enc'' \<mapsto> Inr [0, 0x7D, 0x31, 0x3A, 0x61, 0x7B]) \<and>
        decryptStore example_env (str ''out.enc'') (str ''priv.pem'')
          \<lparr>store = Map.empty, files = files s', console = []\<rparr> =
        Next [str ''a'' \<mapsto> str ''1''] \<lparr>store = Map.empty, files = files s', console = []\<rparr>
    | Next inputs s' \<Rightarrow> False)"
proof -
  let ?s = "example_state [str ''a'' \<mapsto> str ''1'']"
  let ?payload = "Buffer_from (JSON_stringify example_env (store ?s) 0)"
  have payload: "?payload = [0x7B, 0x61, 0x3A, 0x31, 0x7D]"
    by (simp add: example_env_def example_state_def str_def Buffer_from_def utf8_bytes_def)
  have pair: "key_pair example_env (str ''PUBLIC KEY'') (str ''PRIVATE KEY'')"
    by (auto simp: key_pair_def example_env_def split: if_splits)
  have accepts: "accepts_within_capacity example_env (str ''PUBLIC KEY'')"
    by (simp add: accepts_within_capacity_def example_env_def)
  have json: "json_roundtrip example_env (store ?s)"
    unfolding json_roundtrip_def payload
    by (simp add: example_env_def example_state_def str_def toString_def utf8_initial_def utf16_units_def)
  have fits: "length ?payload \<le> max_plaintext example_env (str ''PUBLIC KEY'')"
    unfolding payload by (simp add: example_env_def)
  have can_write: "writable example_env (files ?s) (str ''out.enc'')"
    by (simp add: writable_def example_env_def str_def)
  have differ: "str ''priv.pem'' \<noteq> str ''out.enc''"
    by (simp add: str_def)
  have cipher: "publicEncrypt example_env (str ''PUBLIC KEY'') ?payload = Inr [0, 0x7D, 0x31, 0x3A, 0x61, 0x7B]"
    unfolding payload by (simp add: example_env_def)
  from encrypt_decrypt_roundtrip[OF pair accepts json fits can_write
      example_key_files(1) example_key_files(2) differ, of "[]"]
  obtain c s' where s': "publicEncrypt example_env (str ''PUBLIC KEY'') ?payload = Inr c"
    "encryptStore example_env (str ''out.enc'') [str ''pub.pem''] ?s = Halt (Exit 0) s'"
    "files s' = (files ?s)(str ''out.enc'' \<mapsto> Inr c)"
    "\<forall>s0. files s0 = files s' \<longrightarrow>
       decryptStore example_env (str ''out.enc'') (str ''priv.pem'') s0 = Next (store ?s) s0"
    by blast
  from s'(1) cipher have c: "c = [0, 0x7D, 0x31, 0x3A, 0x61, 0x7B]" by simp
  from s'(4) have "decryptStore example_env (str ''out.enc'') (str ''priv.pem'')
        \<lparr>store = Map.empty, files = files s', console = []\<rparr> =
      Next (store ?s) \<lparr>store = Map.empty, files = files s', console = []\<rparr>"
    by simp
  with s'(2,3) c show ?thesis by (simp add: example_state_def)
qed

end
